theory Spec2Isabelle
  imports Complex_Main "HOL-Library.AList"
begin

section \<open>Data model (drawing-state.ts, canvas.ts)\<close>

text \<open>
  Numbers that the program stores and passes on (coordinates, widths, timestamps, cursor
  positions) are the real values of finite doubles. Where the program computes with
  them, in the distance test of \<open>simplifyPath\<close>, the arithmetic is given twice:
  exactly, and as the engine executes it, in doubles.
  Field names carry a prefix where the source name would clash with a HOL constant or
  with the same field of another interface (\<open>id\<close>, \<open>color\<close>, \<open>x\<close>, \<open>y\<close>).
\<close>

record DrawPoint =
  pt_x :: real
  pt_y :: real

datatype OpType = Draw | Erase

record DrawingOperation =
  op_id :: string
  op_userId :: string
  op_userName :: string
  op_type :: OpType
  op_points :: "DrawPoint list"
  op_color :: string
  op_width :: real
  op_timestamp :: real

record User =
  user_id :: string
  user_name :: string
  user_color :: string
  cursorX :: "real option"
  cursorY :: "real option"

text \<open>
  \<open>class DrawingState\<close>. The \<open>Map<string, User>\<close> is an association list in insertion
  order: \<open>Map.set\<close> on a present key replaces the value in place, on an absent key it
  appends (\<^const>\<open>AList.update\<close>); \<open>Map.delete\<close> is \<^const>\<open>AList.delete\<close>.
\<close>

record DrawingState =
  operations :: "DrawingOperation list"
  users :: "(string \<times> User) list"
  colorIdx :: nat

definition userColors :: "string list" where
  "userColors =
     [''#FF6B6B'', ''#4ECDC4'', ''#45B7D1'', ''#FFA07A'',
      ''#98D8C8'', ''#F7DC6F'', ''#BB8FCE'', ''#85C1E2'']"

definition newDrawingState :: DrawingState where
  "newDrawingState = \<lparr>operations = [], users = [], colorIdx = 0\<rparr>"

definition addUser :: "string \<Rightarrow> string \<Rightarrow> DrawingState \<Rightarrow> User \<times> DrawingState" where
  "addUser userId userName s =
     (let color = userColors ! (colorIdx s mod length userColors);
          s1 = s\<lparr>colorIdx := colorIdx s + 1\<rparr>;
          user = \<lparr>user_id = userId, user_name = userName, user_color = color,
                  cursorX = None, cursorY = None\<rparr>
      in (user, s1\<lparr>users := AList.update userId user (users s1)\<rparr>))"

definition removeUser :: "string \<Rightarrow> DrawingState \<Rightarrow> DrawingState" where
  "removeUser userId s = s\<lparr>users := AList.delete userId (users s)\<rparr>"

definition getUsers :: "DrawingState \<Rightarrow> User list" where
  "getUsers s = map snd (users s)"

definition getUser :: "string \<Rightarrow> DrawingState \<Rightarrow> User option" where
  "getUser userId s = map_of (users s) userId"

definition updateUserCursor :: "string \<Rightarrow> real \<Rightarrow> real \<Rightarrow> DrawingState \<Rightarrow> DrawingState" where
  "updateUserCursor userId cx cy s =
     (case map_of (users s) userId of
        None \<Rightarrow> s
      | Some user \<Rightarrow>
          s\<lparr>users := AList.update userId (user\<lparr>cursorX := Some cx, cursorY := Some cy\<rparr>) (users s)\<rparr>)"

definition addOperation :: "DrawingOperation \<Rightarrow> DrawingState \<Rightarrow> DrawingState" where
  "addOperation op s = s\<lparr>operations := operations s @ [op]\<rparr>"

definition getAllOperations :: "DrawingState \<Rightarrow> DrawingOperation list" where
  "getAllOperations s = operations s"

text \<open>\<open>undoLastOperation\<close>: \<open>null\<close> is \<^const>\<open>None\<close>; \<open>pop\<close> removes and returns the last element.\<close>

definition undoLastOperation :: "DrawingState \<Rightarrow> DrawingOperation option \<times> DrawingState" where
  "undoLastOperation s =
     (if length (operations s) = 0 then (None, s)
      else (Some (last (operations s)), s\<lparr>operations := butlast (operations s)\<rparr>))"

definition redoOperation :: "DrawingOperation \<Rightarrow> DrawingState \<Rightarrow> DrawingState" where
  "redoOperation op s = s\<lparr>operations := operations s @ [op]\<rparr>"

definition clearAll :: "DrawingState \<Rightarrow> DrawingState" where
  "clearAll s = s\<lparr>operations := []\<rparr>"

definition getOperationCount :: "DrawingState \<Rightarrow> nat" where
  "getOperationCount s = length (operations s)"

section \<open>Room registry (rooms.ts)\<close>

record RoomManager =
  rooms :: "(string \<times> DrawingState) list"

definition newRoomManager :: RoomManager where
  "newRoomManager = \<lparr>rooms = []\<rparr>"

definition hasRoom :: "string \<Rightarrow> RoomManager \<Rightarrow> bool" where
  "hasRoom roomId m = (map_of (rooms m) roomId \<noteq> None)"

text \<open>
  \<open>getRoom\<close> creates the room when it is missing and then reads it back; the read
  after the \<open>set\<close> always finds the key (lemma \<open>getRoom_found\<close> below).
\<close>

definition getRoom :: "string \<Rightarrow> RoomManager \<Rightarrow> DrawingState \<times> RoomManager" where
  "getRoom roomId m =
     (let m1 = (if \<not> hasRoom roomId m
                then m\<lparr>rooms := AList.update roomId newDrawingState (rooms m)\<rparr>
                else m)
      in (the (map_of (rooms m1) roomId), m1))"

text \<open>The room objects are mutated in place; the model writes the new state back under its key.\<close>

definition putRoom :: "string \<Rightarrow> DrawingState \<Rightarrow> RoomManager \<Rightarrow> RoomManager" where
  "putRoom roomId st m = m\<lparr>rooms := AList.update roomId st (rooms m)\<rparr>"

definition deleteRoomIfEmpty :: "string \<Rightarrow> RoomManager \<Rightarrow> bool \<times> RoomManager" where
  "deleteRoomIfEmpty roomId m =
     (case map_of (rooms m) roomId of
        None \<Rightarrow> (False, m)
      | Some room \<Rightarrow>
          if length (getUsers room) = 0
          then (True, m\<lparr>rooms := AList.delete roomId (rooms m)\<rparr>)
          else (False, m))"

definition getAllRoomIds :: "RoomManager \<Rightarrow> string list" where
  "getAllRoomIds m = map fst (rooms m)"

definition getRoomCount :: "RoomManager \<Rightarrow> nat" where
  "getRoomCount m = length (rooms m)"

text \<open>
  The \<open>join-room\<close> and \<open>disconnect\<close> socket handlers of server.ts, on the registry.
  \<open>join-room\<close> sets the connection's variables \<open>currentRoom\<close> to the room id and
  \<open>currentUserId\<close> to the socket id, which is also the user id.
\<close>

definition socket_join_room :: "string \<Rightarrow> string \<Rightarrow> string \<Rightarrow> RoomManager \<Rightarrow> User \<times> RoomManager" where
  "socket_join_room roomId socketId userName m =
     (let (roomState, m1) = getRoom roomId m;
          (user, roomState1) = addUser socketId userName roomState
      in (user, putRoom roomId roomState1 m1))"

text \<open>
  \<open>disconnect\<close>. The connection's variables are \<open>string | null\<close>, \<open>null\<close> before any
  join; the handler acts only when both are truthy, that is, neither \<open>null\<close> nor the
  empty string. The result says whether \<open>deleteRoomIfEmpty\<close> was called and what it
  returned.
\<close>

definition socket_disconnect :: "string option \<Rightarrow> string option \<Rightarrow> RoomManager \<Rightarrow> bool option \<times> RoomManager" where
  "socket_disconnect currentRoom currentUserId m =
     (case (currentRoom, currentUserId) of
        (Some roomId, Some userId) \<Rightarrow>
          if roomId \<noteq> [] \<and> userId \<noteq> []
          then (let (roomState, m1) = getRoom roomId m;
                    roomState1 = removeUser userId roomState;
                    (released, m2) = deleteRoomIfEmpty roomId (putRoom roomId roomState1 m1)
                in (Some released, m2))
          else (None, m)
      | _ \<Rightarrow> (None, m))"

text \<open>
  A join followed by a leave, as calls on the registry and the room:
  \<open>getRoom(roomId).addUser(userId, userName)\<close>, then \<open>getRoom(roomId).removeUser(userId)\<close>.
\<close>

definition joinThenLeave :: "string \<Rightarrow> string \<Rightarrow> string \<Rightarrow> RoomManager \<Rightarrow> RoomManager" where
  "joinThenLeave roomId userId userName m =
     (let (room1, m1) = getRoom roomId m;
          (user, room2) = addUser userId userName room1;
          m2 = putRoom roomId room2 m1;
          (room3, m3) = getRoom roomId m2
      in putRoom roomId (removeUser userId room3) m3)"

section \<open>Client undo/redo bookkeeping (main.ts)\<close>

text \<open>
  The server keeps no redo buffer: the redo buffer of a session is the \<open>redoStack\<close> of
  \<open>class CollaborativeCanvas\<close>, maintained by the callbacks that the server's broadcasts
  trigger. \<open>canvasOperations\<close> is the client's copy of the log
  (\<open>CanvasManager.operations\<close>); rendering is left out.
\<close>

record CollaborativeCanvas =
  canvasOperations :: "DrawingOperation list"
  undoStack :: "DrawingOperation list"
  redoStack :: "DrawingOperation list"

definition newCollaborativeCanvas :: CollaborativeCanvas where
  "newCollaborativeCanvas = \<lparr>canvasOperations = [], undoStack = [], redoStack = []\<rparr>"

definition clearUndoStack :: "CollaborativeCanvas \<Rightarrow> CollaborativeCanvas" where
  "clearUndoStack c = c\<lparr>undoStack := []\<rparr>"

definition clearRedoStack :: "CollaborativeCanvas \<Rightarrow> CollaborativeCanvas" where
  "clearRedoStack c = c\<lparr>redoStack := []\<rparr>"

text \<open>
  \<open>onDrawOperation\<close>: a stroke of another user arrives.
\<close>

definition onDrawOperation :: "DrawingOperation \<Rightarrow> CollaborativeCanvas \<Rightarrow> CollaborativeCanvas" where
  "onDrawOperation op c =
     clearRedoStack (c\<lparr>canvasOperations := canvasOperations c @ [op]\<rparr>)"

text \<open>
  \<open>stopDrawing\<close> of main.ts on the drawing client, for the stroke \<open>op\<close> that
  \<open>CanvasManager.stopDrawing\<close> built, recorded and returned.
\<close>

definition stopDrawing :: "DrawingOperation \<Rightarrow> CollaborativeCanvas \<Rightarrow> CollaborativeCanvas" where
  "stopDrawing op c =
     clearRedoStack (c\<lparr>canvasOperations := canvasOperations c @ [op]\<rparr>)"

definition onUndo :: "string \<Rightarrow> DrawingOperation \<Rightarrow> CollaborativeCanvas \<Rightarrow> CollaborativeCanvas" where
  "onUndo operationId operation c =
     (let updated = filter (\<lambda>op. op_id op \<noteq> operationId) (canvasOperations c);
          c1 = c\<lparr>canvasOperations := updated\<rparr>
      in c1\<lparr>redoStack := redoStack c1 @ [operation]\<rparr>)"

definition onRedo :: "DrawingOperation \<Rightarrow> CollaborativeCanvas \<Rightarrow> CollaborativeCanvas" where
  "onRedo op c =
     (let c1 = c\<lparr>canvasOperations := canvasOperations c @ [op]\<rparr>
      in c1\<lparr>redoStack := filter (\<lambda>other. op_id other \<noteq> op_id op) (redoStack c1)\<rparr>)"

definition onClearCanvas :: "CollaborativeCanvas \<Rightarrow> CollaborativeCanvas" where
  "onClearCanvas c = clearRedoStack (clearUndoStack (c\<lparr>canvasOperations := []\<rparr>))"

section \<open>One room's session: the server state and a member's view\<close>

text \<open>
  The socket handlers of server.ts for a connection that has joined the room (under a
  room id that is not empty: with the empty id every handler returns at its guard),
  composed with the callbacks their broadcasts trigger on a member client. The log of the session
  is \<open>operations (room s)\<close>, its redo buffer is \<open>redoStack (view s)\<close>, its users are
  \<open>users (room s)\<close>.
\<close>

record Session =
  room :: DrawingState
  "view" :: CollaborativeCanvas

definition newSession :: Session where
  "newSession = \<lparr>room = newDrawingState, view = newCollaborativeCanvas\<rparr>"

definition socket_join :: "string \<Rightarrow> string \<Rightarrow> Session \<Rightarrow> User \<times> Session" where
  "socket_join socketId userName s =
     (let (user, r) = addUser socketId userName (room s) in (user, s\<lparr>room := r\<rparr>))"

definition socket_leave :: "string \<Rightarrow> Session \<Rightarrow> Session" where
  "socket_leave userId s = s\<lparr>room := removeUser userId (room s)\<rparr>"

definition socket_draw_operation :: "DrawingOperation \<Rightarrow> Session \<Rightarrow> Session" where
  "socket_draw_operation op s =
     s\<lparr>room := addOperation op (room s), view := onDrawOperation op (view s)\<rparr>"

definition socket_cursor_move :: "string \<Rightarrow> real \<Rightarrow> real \<Rightarrow> Session \<Rightarrow> Session" where
  "socket_cursor_move userId cx cy s = s\<lparr>room := updateUserCursor userId cx cy (room s)\<rparr>"

text \<open>\<open>undo\<close>: the broadcast, and with it \<open>onUndo\<close>, happens only when an operation was removed.\<close>

definition socket_undo :: "Session \<Rightarrow> DrawingOperation option \<times> Session" where
  "socket_undo s =
     (case undoLastOperation (room s) of
        (None, r) \<Rightarrow> (None, s\<lparr>room := r\<rparr>)
      | (Some undoneOp, r) \<Rightarrow>
          (Some undoneOp, s\<lparr>room := r, view := onUndo (op_id undoneOp) undoneOp (view s)\<rparr>))"

definition socket_redo :: "DrawingOperation \<Rightarrow> Session \<Rightarrow> Session" where
  "socket_redo op s = s\<lparr>room := redoOperation op (room s), view := onRedo op (view s)\<rparr>"

definition socket_clear_canvas :: "Session \<Rightarrow> Session" where
  "socket_clear_canvas s = s\<lparr>room := clearAll (room s), view := onClearCanvas (view s)\<rparr>"

text \<open>
  The inbound messages of one room as a datatype, and the session after a sequence of
  them, starting from a freshly created room with a freshly loaded client.
\<close>

datatype Event =
    Join string string
  | Leave string
  | Apply DrawingOperation
  | Undo
  | Redo DrawingOperation
  | Clear
  | MoveCursor string real real

fun step :: "Event \<Rightarrow> Session \<Rightarrow> Session" where
  "step (Join socketId userName) s = snd (socket_join socketId userName s)"
| "step (Leave userId) s = socket_leave userId s"
| "step (Apply op) s = socket_draw_operation op s"
| "step Undo s = snd (socket_undo s)"
| "step (Redo op) s = socket_redo op s"
| "step Clear s = socket_clear_canvas s"
| "step (MoveCursor userId cx cy) s = socket_cursor_move userId cx cy s"

fun run :: "Event list \<Rightarrow> Session \<Rightarrow> Session" where
  "run [] s = s"
| "run (e # es) s = run es (step e s)"

text \<open>
  What the clients of the repository send: a new stroke carries an id that is not in the
  log (\<open>stopDrawing\<close> builds it from user id, time and a random number), and a redo
  request carries an operation taken from the redo stack (\<open>redo\<close> in main.ts). The
  server checks neither.
\<close>

fun admissible :: "Session \<Rightarrow> Event \<Rightarrow> bool" where
  "admissible s (Apply op) = (op_id op \<notin> set (map op_id (operations (room s))))"
| "admissible s (Redo op) = (op \<in> set (redoStack (view s)))"
| "admissible s e = True"

fun admissible_run :: "Session \<Rightarrow> Event list \<Rightarrow> bool" where
  "admissible_run s [] = True"
| "admissible_run s (e # es) = (admissible s e \<and> admissible_run (step e s) es)"

section \<open>Path simplification (canvas.ts), in exact arithmetic\<close>

definition tolerance :: real where
  "tolerance = 2"





subsection \<open>The single-pass rule in the words of the specification\<close>

definition euclid :: "DrawPoint \<Rightarrow> DrawPoint \<Rightarrow> real" where
  "euclid p q = sqrt ((pt_x q - pt_x p)\<^sup>2 + (pt_y q - pt_y p)\<^sup>2)"

text \<open>
  \<open>rule_interior tol kept rest\<close>: \<open>kept\<close> is the previously kept point and \<open>rest\<close> the raw
  points not yet looked at. A point with a successor is interior and is kept exactly when
  it is farther than \<open>tol\<close> from \<open>kept\<close> or from the next raw point; the point without
  a successor is the last one and is always kept.
\<close>

fun rule_interior :: "real \<Rightarrow> DrawPoint \<Rightarrow> DrawPoint list \<Rightarrow> DrawPoint list" where
  "rule_interior tol kept [] = []"
| "rule_interior tol kept [lastp] = [lastp]"
| "rule_interior tol kept (cur # next # rest) =
     (if euclid kept cur > tol \<or> euclid cur next > tol
      then cur # rule_interior tol cur (next # rest)
      else rule_interior tol kept (next # rest))"

definition simplify_rule :: "real \<Rightarrow> DrawPoint list \<Rightarrow> DrawPoint list" where
  "simplify_rule tol points =
     (case points of
        first # second # third # rest \<Rightarrow> first # rule_interior tol first (second # third # rest)
      | _ \<Rightarrow> points)"

section \<open>Path simplification as executed: double arithmetic\<close>

text \<open>
  The engine evaluates the distance test of \<open>simplifyPath\<close> in IEEE 754 binary64
  arithmetic: every subtraction, product, sum and square root is rounded to the nearest
  double, ties to the even significand. \<open>jsnum\<close> is the value of a JavaScript number:
  a finite value, an infinity or \<open>NaN\<close>. The sign of zero is left out: no comparison
  sees it, and the loop returns input points, never computed numbers.
  \<open>Math.sqrt\<close> is the correctly rounded square root, as the engines implement it.
  The coordinates of the points are finite (they come from pointer events); the
  differences and squares computed from them may overflow to an infinity.
\<close>

datatype jsnum = Num real | PInf | NInf | NaN

text \<open>Rounding a real to the nearest integer, ties to the even one.\<close>

definition rne :: "real \<Rightarrow> int" where
  "rne y =
     (let f = \<lfloor>y\<rfloor>; d = y - of_int f
      in if d < 1 / 2 then f
         else if 1 / 2 < d then f + 1
         else if even f then f else f + 1)"

definition pow2 :: "int \<Rightarrow> real" where
  "pow2 e = (if 0 \<le> e then 2 ^ nat e else 1 / 2 ^ nat (- e))"

text \<open>
  The spacing of the doubles around \<open>x\<close>: 52 fraction bits below the binary exponent of
  \<open>x\<close>, and the exponent not below \<open>-1022\<close> (subnormal numbers share the spacing
  \<open>2\<^sup>-\<^sup>1\<^sup>0\<^sup>7\<^sup>4\<close>).
\<close>

definition quantum :: "real \<Rightarrow> real" where
  "quantum x = pow2 (max \<lfloor>log 2 \<bar>x\<bar>\<rfloor> (- 1022) - 52)"

text \<open>
  Rounding to a double: the nearest multiple of the spacing, and an infinity when that
  is \<open>2\<^sup>1\<^sup>0\<^sup>2\<^sup>4\<close> or more in magnitude.
\<close>

definition to_double :: "real \<Rightarrow> jsnum" where
  "to_double x =
     (if x = 0 then Num 0
      else (let r = of_int (rne (x / quantum x)) * quantum x
            in if 2 ^ 1024 \<le> \<bar>r\<bar> then (if 0 < x then PInf else NInf) else Num r))"

text \<open>The operators \<open>-\<close>, \<open>*\<close>, \<open>+\<close>, \<open>Math.sqrt\<close> and \<open>>\<close> on numbers.\<close>

fun js_neg :: "jsnum \<Rightarrow> jsnum" where
  "js_neg (Num u) = Num (- u)"
| "js_neg PInf = NInf"
| "js_neg NInf = PInf"
| "js_neg NaN = NaN"

fun js_add :: "jsnum \<Rightarrow> jsnum \<Rightarrow> jsnum" where
  "js_add (Num u) (Num v) = to_double (u + v)"
| "js_add (Num u) PInf = PInf"
| "js_add (Num u) NInf = NInf"
| "js_add PInf (Num v) = PInf"
| "js_add PInf PInf = PInf"
| "js_add PInf NInf = NaN"
| "js_add NInf (Num v) = NInf"
| "js_add NInf NInf = NInf"
| "js_add NInf PInf = NaN"
| "js_add NaN b = NaN"
| "js_add a NaN = NaN"

definition js_sub :: "jsnum \<Rightarrow> jsnum \<Rightarrow> jsnum" where
  "js_sub a b = js_add a (js_neg b)"

fun js_mul :: "jsnum \<Rightarrow> jsnum \<Rightarrow> jsnum" where
  "js_mul (Num u) (Num v) = to_double (u * v)"
| "js_mul (Num u) PInf = (if u = 0 then NaN else if 0 < u then PInf else NInf)"
| "js_mul (Num u) NInf = (if u = 0 then NaN else if 0 < u then NInf else PInf)"
| "js_mul PInf (Num v) = (if v = 0 then NaN else if 0 < v then PInf else NInf)"
| "js_mul NInf (Num v) = (if v = 0 then NaN else if 0 < v then NInf else PInf)"
| "js_mul PInf PInf = PInf"
| "js_mul PInf NInf = NInf"
| "js_mul NInf PInf = NInf"
| "js_mul NInf NInf = PInf"
| "js_mul NaN b = NaN"
| "js_mul a NaN = NaN"

fun js_sqrt :: "jsnum \<Rightarrow> jsnum" where
  "js_sqrt (Num u) = (if u < 0 then NaN else to_double (sqrt u))"
| "js_sqrt PInf = PInf"
| "js_sqrt NInf = NaN"
| "js_sqrt NaN = NaN"

fun js_gt :: "jsnum \<Rightarrow> jsnum \<Rightarrow> bool" where
  "js_gt (Num u) (Num v) = (v < u)"
| "js_gt (Num u) NInf = True"
| "js_gt PInf (Num v) = True"
| "js_gt PInf NInf = True"
| "js_gt a b = False"

text \<open>The test of the loop body and the loop of \<open>simplifyPath\<close>, in this arithmetic.\<close>

definition keepPoint_double :: "DrawPoint \<Rightarrow> DrawPoint \<Rightarrow> DrawPoint \<Rightarrow> bool" where
  "keepPoint_double prev cur next =
     (let dx1 = js_sub (Num (pt_x cur)) (Num (pt_x prev));
          dy1 = js_sub (Num (pt_y cur)) (Num (pt_y prev));
          dx2 = js_sub (Num (pt_x next)) (Num (pt_x cur));
          dy2 = js_sub (Num (pt_y next)) (Num (pt_y cur));
          dist1 = js_sqrt (js_add (js_mul dx1 dx1) (js_mul dy1 dy1));
          dist2 = js_sqrt (js_add (js_mul dx2 dx2) (js_mul dy2 dy2))
      in js_gt dist1 (Num tolerance) \<or> js_gt dist2 (Num tolerance))"

function simplifyLoop_double :: "DrawPoint list \<Rightarrow> nat \<Rightarrow> DrawPoint list \<Rightarrow> DrawPoint list" where
  "simplifyLoop_double points i result =
     (if i < length points - 1
      then (let prev = result ! (length result - 1);
                cur = points ! i;
                next = points ! (i + 1)
            in simplifyLoop_double points (i + 1)
                 (if keepPoint_double prev cur next then result @ [cur] else result))
      else result)"
  by pat_completeness auto
termination
  by (relation "measure (\<lambda>(points, i, result). length points - i)") auto

declare simplifyLoop_double.simps [simp del]

definition simplifyPath_double :: "DrawPoint list \<Rightarrow> DrawPoint list" where
  "simplifyPath_double points =
     (if length points \<le> 2 then points
      else simplifyLoop_double points 1 [points ! 0] @ [points ! (length points - 1)])"

text \<open>
  The single-pass rule in the words of the specification, for any test \<open>far\<close> that says
  when the distance between two points exceeds the tolerance; and the test with the
  distance as the program computes it, \<open>Math.sqrt(dx * dx + dy * dy)\<close> in doubles.
\<close>

definition computed_distance :: "DrawPoint \<Rightarrow> DrawPoint \<Rightarrow> jsnum" where
  "computed_distance p q =
     (let dx = js_sub (Num (pt_x q)) (Num (pt_x p));
          dy = js_sub (Num (pt_y q)) (Num (pt_y p))
      in js_sqrt (js_add (js_mul dx dx) (js_mul dy dy)))"

definition exceeds_tolerance :: "DrawPoint \<Rightarrow> DrawPoint \<Rightarrow> bool" where
  "exceeds_tolerance p q = js_gt (computed_distance p q) (Num 2)"

fun rule_interior_by ::
  "(DrawPoint \<Rightarrow> DrawPoint \<Rightarrow> bool) \<Rightarrow> DrawPoint \<Rightarrow> DrawPoint list \<Rightarrow> DrawPoint list" where
  "rule_interior_by far kept [] = []"
| "rule_interior_by far kept [lastp] = [lastp]"
| "rule_interior_by far kept (cur # next # rest) =
     (if far kept cur \<or> far cur next
      then cur # rule_interior_by far cur (next # rest)
      else rule_interior_by far kept (next # rest))"

definition simplify_rule_by :: "(DrawPoint \<Rightarrow> DrawPoint \<Rightarrow> bool) \<Rightarrow> DrawPoint list \<Rightarrow> DrawPoint list" where
  "simplify_rule_by far points =
     (case points of
        first # second # third # rest \<Rightarrow> first # rule_interior_by far first (second # third # rest)
      | _ \<Rightarrow> points)"

section \<open>Sample data\<close>

definition pt :: "real \<Rightarrow> real \<Rightarrow> DrawPoint" where
  "pt a b = \<lparr>pt_x = a, pt_y = b\<rparr>"

definition stroke :: "string \<Rightarrow> DrawingOperation" where
  "stroke i =
     \<lparr>op_id = i, op_userId = ''u1'', op_userName = ''Ann'', op_type = Draw,
      op_points = [pt 0 0, pt 5 5], op_color = ''#000000'', op_width = 3, op_timestamp = 0\<rparr>"

definition sampleSession :: Session where
  "sampleSession =
     run [Join ''s1'' ''Ann'', Apply (stroke ''a''), Apply (stroke ''b''), Apply (stroke ''c''),
          Apply (stroke ''d''), Undo, Undo] newSession"

definition sampleRun :: "Event list" where
  "sampleRun =
     [Join ''s1'' ''Ann'', Apply (stroke ''a''), Apply (stroke ''b''), Undo, MoveCursor ''s1'' 1 2,
      Redo (stroke ''b''), Undo, Undo, Redo (stroke ''a''), Apply (stroke ''c''), Leave ''s1'']"

section \<open>Auxiliary predicates\<close>

text \<open>
  The invariant that carries the uniqueness of ids through undo and redo: ids are unique
  in the log and in the redo buffer, and no id is in both.
\<close>

definition log_inv :: "Session \<Rightarrow> bool" where
  "log_inv s =
     (distinct (map op_id (operations (room s))) \<and>
      distinct (map op_id (redoStack (view s))) \<and>
      set (map op_id (operations (room s))) \<inter> set (map op_id (redoStack (view s))) = {})"





definition line5 :: "DrawPoint list" where
  "line5 = [pt 0 0, pt 1 0, pt 2 0, pt 3 0, pt 4 0]"

definition line3 :: "DrawPoint list" where
  "line3 = [pt 0 0, pt 1 0, pt 2 0]"

definition tiny3 :: "DrawPoint list" where
  "tiny3 = [pt 0 0, pt 2 (1 / 2 ^ 30), pt 3 (1 / 2 ^ 30)]"

text \<open>
  Two registries: one with a member in each of two rooms, and the same one at the moment
  the \<open>disconnect\<close> handler has removed the member of room \<open>r1\<close> and is about to call
  \<open>deleteRoomIfEmpty\<close>.
\<close>

definition busyRegistry :: RoomManager where
  "busyRegistry =
     snd (socket_join_room ''r2'' ''s2'' ''Bob''
       (snd (socket_join_room ''r1'' ''s1'' ''Ann'' newRoomManager)))"

definition vacatedRegistry :: RoomManager where
  "vacatedRegistry =
     putRoom ''r1'' (removeUser ''s1'' (fst (getRoom ''r1'' busyRegistry))) busyRegistry"

definition joinedTwice :: DrawingState where
  "joinedTwice = snd (addUser ''s1'' ''Ann'' newDrawingState)"

section \<open>Evaluation on concrete sessions\<close>

lemmas session_defs =
  newSession_def newDrawingState_def newCollaborativeCanvas_def
  socket_join_def socket_leave_def socket_draw_operation_def socket_cursor_move_def
  socket_undo_def socket_redo_def socket_clear_canvas_def
  addUser_def removeUser_def updateUserCursor_def addOperation_def undoLastOperation_def
  redoOperation_def clearAll_def onDrawOperation_def onUndo_def onRedo_def onClearCanvas_def
  clearRedoStack_def clearUndoStack_def stroke_def pt_def userColors_def Let_def

lemma sampleSession_log: "operations (room sampleSession) = [stroke ''a'', stroke ''b'']"
  by (simp add: sampleSession_def session_defs)

lemma sampleSession_redoStack: "redoStack (view sampleSession) = [stroke ''d'', stroke ''c'']"
  by (simp add: sampleSession_def session_defs)

section \<open>Undo, redo, apply and clear on a session\<close>

text \<open>
  C7. In a session whose log is empty, undo returns no operation (\<open>null\<close>, not an
  exception) and leaves the whole session, log, redo buffer and users, as it was.
\<close>

theorem undo_empty_log:
  "operations (room s) = [] \<Longrightarrow>
     socket_undo s = (None, s) \<and> undoLastOperation (room s) = (None, room s)"
  by (simp add: socket_undo_def undoLastOperation_def)

theorem undo_empty_log_witness:
  "operations (room newSession) = [] \<and> socket_undo newSession = (None, newSession)
   \<and> undoLastOperation (room newSession) = (None, room newSession)"
proof -
  have h: "operations (room newSession) = []"
    by (simp add: newSession_def newDrawingState_def)
  from h undo_empty_log [OF h] show ?thesis by simp
qed

text \<open>
  C2. In a session whose redo buffer is not empty, applying a new (non-redo) operation
  leaves the redo buffer empty, on a member that receives the stroke and on the member
  that drew it; the operation goes to the tail of the log.
\<close>

theorem apply_empties_redo:
  "redoStack (view s) \<noteq> [] \<Longrightarrow>
     redoStack (view (socket_draw_operation op s)) = [] \<and>
     operations (room (socket_draw_operation op s)) = operations (room s) @ [op] \<and>
     redoStack (stopDrawing op (view s)) = []"
  by (simp add: socket_draw_operation_def onDrawOperation_def stopDrawing_def clearRedoStack_def
      addOperation_def)

theorem apply_empties_redo_witness:
  "redoStack (view sampleSession) \<noteq> [] \<and>
   redoStack (view (socket_draw_operation (stroke ''e'') sampleSession)) = [] \<and>
   operations (room (socket_draw_operation (stroke ''e'') sampleSession))
     = [stroke ''a'', stroke ''b'', stroke ''e'']"
proof -
  have h: "redoStack (view sampleSession) \<noteq> []"
    by (simp add: sampleSession_redoStack)
  from h apply_empties_redo [OF h, of "stroke ''e''"] show ?thesis
    by (simp add: sampleSession_log)
qed

text \<open>
  C3. For an operation \<open>op\<close> that is in the redo buffer, redo of \<open>op\<close> appends \<open>op\<close> at the
  tail of the log and removes from the redo buffer the entries whose id is \<open>op\<close>'s id,
  and only those: afterwards \<open>op\<close> is not in the buffer and the buffer is shorter.
\<close>

theorem redo_appends_and_removes:
  "op \<in> set (redoStack (view s)) \<Longrightarrow>
     operations (room (socket_redo op s)) = operations (room s) @ [op] \<and>
     redoStack (view (socket_redo op s))
       = filter (\<lambda>other. op_id other \<noteq> op_id op) (redoStack (view s)) \<and>
     op \<notin> set (redoStack (view (socket_redo op s))) \<and>
     length (redoStack (view (socket_redo op s))) < length (redoStack (view s))"
proof -
  assume mem: "op \<in> set (redoStack (view s))"
  have shorter:
    "length (filter (\<lambda>other. op_id other \<noteq> op_id op) (redoStack (view s)))
       < length (redoStack (view s))"
    using mem by (intro length_filter_less [of op]) simp_all
  then show ?thesis
    by (simp add: socket_redo_def redoOperation_def onRedo_def)
qed

theorem redo_appends_and_removes_witness:
  "stroke ''c'' \<in> set (redoStack (view sampleSession)) \<and>
   operations (room (socket_redo (stroke ''c'') sampleSession))
     = [stroke ''a'', stroke ''b'', stroke ''c''] \<and>
   redoStack (view (socket_redo (stroke ''c'') sampleSession)) = [stroke ''d'']"
proof -
  have h: "stroke ''c'' \<in> set (redoStack (view sampleSession))"
    by (simp add: sampleSession_redoStack)
  have f: "filter (\<lambda>other. op_id other \<noteq> op_id (stroke ''c'')) [stroke ''d'', stroke ''c'']
             = [stroke ''d'']"
    by (simp add: stroke_def)
  from h f redo_appends_and_removes [OF h] show ?thesis
    by (simp add: sampleSession_log sampleSession_redoStack)
qed

text \<open>
  C1. In a session whose log is not empty, undo returns an operation, and redo of that
  operation right afterwards gives back the server state as it was before the undo, the
  log with the same content in the same order; of the redo buffer as it was before the
  undo, exactly the entries with another id than the returned operation's remain, in
  their order.
\<close>

theorem undo_then_redo:
  "operations (room s) \<noteq> [] \<Longrightarrow>
     (\<exists>op s1. socket_undo s = (Some op, s1) \<and>
        operations (room (socket_redo op s1)) = operations (room s) \<and>
        room (socket_redo op s1) = room s \<and>
        redoStack (view (socket_redo op s1))
          = filter (\<lambda>other. op_id other \<noteq> op_id op) (redoStack (view s)))"
  by (simp add: socket_undo_def undoLastOperation_def socket_redo_def redoOperation_def
      onUndo_def onRedo_def)

theorem undo_then_redo_witness:
  "operations (room sampleSession) \<noteq> [] \<and>
   (\<exists>op s1. socket_undo sampleSession = (Some op, s1) \<and>
      operations (room (socket_redo op s1)) = [stroke ''a'', stroke ''b''] \<and>
      room (socket_redo op s1) = room sampleSession \<and>
      redoStack (view (socket_redo op s1))
        = filter (\<lambda>other. op_id other \<noteq> op_id op) [stroke ''d'', stroke ''c''])"
proof -
  have h: "operations (room sampleSession) \<noteq> []"
    by (simp add: sampleSession_log)
  from h undo_then_redo [OF h] show ?thesis
    by (simp add: sampleSession_log sampleSession_redoStack)
qed

text \<open>
  C8. Clear empties the log and the redo buffer whatever they held and leaves the users
  as they were; an undo right after a clear returns no operation and changes nothing.
\<close>

theorem clear_empties_log_and_redo:
  "operations (room (socket_clear_canvas s)) = [] \<and>
   redoStack (view (socket_clear_canvas s)) = [] \<and>
   users (room (socket_clear_canvas s)) = users (room s) \<and>
   socket_undo (socket_clear_canvas s) = (None, socket_clear_canvas s)"
  by (simp add: socket_clear_canvas_def clearAll_def onClearCanvas_def clearRedoStack_def
      clearUndoStack_def socket_undo_def undoLastOperation_def)

theorem clear_empties_log_and_redo_witness:
  "operations (room sampleSession) = [stroke ''a'', stroke ''b''] \<and>
   redoStack (view sampleSession) = [stroke ''d'', stroke ''c''] \<and>
   operations (room (socket_clear_canvas sampleSession)) = [] \<and>
   redoStack (view (socket_clear_canvas sampleSession)) = [] \<and>
   users (room (socket_clear_canvas sampleSession)) = users (room sampleSession) \<and>
   socket_undo (socket_clear_canvas sampleSession) = (None, socket_clear_canvas sampleSession)"
  using clear_empties_log_and_redo [of sampleSession]
  by (simp add: sampleSession_log sampleSession_redoStack)

section \<open>Uniqueness of ids in the log\<close>

lemma log_inv_new: "log_inv newSession"
  by (simp add: log_inv_def newSession_def newDrawingState_def newCollaborativeCanvas_def)

lemma join_keeps_log [simp]:
  "operations (room (snd (socket_join a b s))) = operations (room s)"
  "view (snd (socket_join a b s)) = view s"
  by (simp_all add: socket_join_def addUser_def Let_def)

lemma leave_keeps_log [simp]:
  "operations (room (socket_leave a s)) = operations (room s)"
  "view (socket_leave a s) = view s"
  by (simp_all add: socket_leave_def removeUser_def)

lemma cursor_keeps_log [simp]:
  "operations (room (socket_cursor_move a cx cy s)) = operations (room s)"
  "view (socket_cursor_move a cx cy s) = view s"
  by (simp_all add: socket_cursor_move_def updateUserCursor_def split: option.splits)

lemma undo_log: "operations (room (snd (socket_undo s))) = butlast (operations (room s))"
  by (simp add: socket_undo_def undoLastOperation_def)

lemma undo_redoStack:
  "redoStack (view (snd (socket_undo s))) =
     (if operations (room s) = [] then redoStack (view s)
      else redoStack (view s) @ [last (operations (room s))])"
  by (simp add: socket_undo_def undoLastOperation_def onUndo_def)

lemma log_inv_undo: "log_inv s \<Longrightarrow> log_inv (snd (socket_undo s))"
proof (cases "operations (room s)" rule: rev_cases)
  case Nil
  assume "log_inv s"
  with Nil show ?thesis by (simp add: log_inv_def undo_log undo_redoStack)
next
  case (snoc l x)
  assume "log_inv s"
  with snoc show ?thesis by (auto simp add: log_inv_def undo_log undo_redoStack)
qed

lemma log_inv_redo:
  "log_inv s \<Longrightarrow> op \<in> set (redoStack (view s)) \<Longrightarrow> log_inv (socket_redo op s)"
  by (auto simp add: log_inv_def socket_redo_def redoOperation_def onRedo_def distinct_map_filter)

lemma log_inv_apply:
  "log_inv s \<Longrightarrow> op_id op \<notin> set (map op_id (operations (room s))) \<Longrightarrow>
     log_inv (socket_draw_operation op s)"
  by (simp add: log_inv_def socket_draw_operation_def addOperation_def onDrawOperation_def
      clearRedoStack_def)

lemma log_inv_clear: "log_inv (socket_clear_canvas s)"
  by (simp add: log_inv_def socket_clear_canvas_def clearAll_def onClearCanvas_def
      clearRedoStack_def clearUndoStack_def)

lemma log_inv_step: "log_inv s \<Longrightarrow> admissible s e \<Longrightarrow> log_inv (step e s)"
proof (cases e)
  case (Join a b)
  assume "log_inv s" then show ?thesis using Join by (simp add: log_inv_def)
next
  case (Leave a)
  assume "log_inv s" then show ?thesis using Leave by (simp add: log_inv_def)
next
  case (Apply op)
  assume "log_inv s" "admissible s e" then show ?thesis using Apply by (simp add: log_inv_apply)
next
  case Undo
  assume "log_inv s" then show ?thesis using Undo by (simp add: log_inv_undo)
next
  case (Redo op)
  assume "log_inv s" "admissible s e" then show ?thesis using Redo by (simp add: log_inv_redo)
next
  case Clear
  then show ?thesis by (simp add: log_inv_clear)
next
  case (MoveCursor a cx cy)
  assume "log_inv s" then show ?thesis using MoveCursor by (simp add: log_inv_def)
qed

lemma log_inv_run: "log_inv s \<Longrightarrow> admissible_run s es \<Longrightarrow> log_inv (run es s)"
  by (induction es arbitrary: s) (simp_all add: log_inv_step)

text \<open>
  C4, as stated: it fails. The server appends whatever a \<open>redo\<close> message carries, so a
  redo of a stroke that is still in the log puts it there twice.
\<close>

theorem log_ids_counterexample:
  "\<not> distinct (map op_id (operations (room
        (run [Apply (stroke ''a''), Redo (stroke ''a'')] newSession))))"
  by (simp add: session_defs)

text \<open>
  C4, amended. Starting from the empty session, after any sequence of apply, undo, redo,
  clear, join, leave and moveCursor in which every applied operation has an id that is
  not in the log at that moment and every redo names an operation that is in the redo
  buffer at that moment, no two operations of the log have the same id.
\<close>

theorem log_ids_distinct:
  "admissible_run newSession es \<Longrightarrow>
     distinct (map op_id (operations (room (run es newSession))))"
  using log_inv_run [OF log_inv_new, of es] by (simp add: log_inv_def)

theorem log_ids_distinct_witness:
  "admissible_run newSession sampleRun \<and>
   distinct (map op_id (operations (room (run sampleRun newSession)))) \<and>
   map op_id (operations (room (run sampleRun newSession))) = [''a'', ''c'']"
proof -
  have h: "admissible_run newSession sampleRun"
    by (simp add: sampleRun_def session_defs)
  have v: "map op_id (operations (room (run sampleRun newSession))) = [''a'', ''c'']"
    by (simp add: sampleRun_def session_defs)
  from h v log_ids_distinct [OF h] show ?thesis by blast
qed

section \<open>Path simplification in exact arithmetic\<close>

lemma sqrt_gt_two: "sqrt a > 2 \<longleftrightarrow> a > 4"
  using real_sqrt_less_iff [of 4 a] by simp























section \<open>Path simplification in double arithmetic\<close>

lemma pow2_powr: "pow2 e = 2 powr (of_int e)"
  by (simp add: pow2_def powr_real_of_int inverse_eq_divide)

lemma quantum_binade:
  assumes "pow2 e \<le> \<bar>x\<bar>" and "\<bar>x\<bar> < pow2 (e + 1)" and "- 1022 \<le> e"
  shows "quantum x = pow2 (e - 52)"
proof -
  have "0 < pow2 e" by (simp add: pow2_def)
  then have pos: "0 < \<bar>x\<bar>" using assms(1) by linarith
  have "\<lfloor>log 2 \<bar>x\<bar>\<rfloor> = e"
    using assms(1,2) pos by (simp add: floor_log_eq_powr_iff pow2_powr)
  then show ?thesis using assms(3) by (simp add: quantum_def)
qed

lemma to_double_binade:
  assumes "pow2 e \<le> \<bar>x\<bar>" and "\<bar>x\<bar> < pow2 (e + 1)" and "- 1022 \<le> e"
  shows "to_double x =
     (if 2 ^ 1024 \<le> \<bar>of_int (rne (x / pow2 (e - 52))) * pow2 (e - 52)\<bar>
      then (if 0 < x then PInf else NInf)
      else Num (of_int (rne (x / pow2 (e - 52))) * pow2 (e - 52)))"
proof -
  have "0 < pow2 e" by (simp add: pow2_def)
  then have "x \<noteq> 0" using assms(1) by auto
  then show ?thesis
    by (simp add: to_double_def quantum_binade [OF assms] Let_def)
qed

lemma d2: "to_double 2 = Num 2"
  using to_double_binade [of 1 2] by (simp add: pow2_def rne_def Let_def)

lemma d4: "to_double 4 = Num 4"
  using to_double_binade [of 2 4] by (simp add: pow2_def rne_def Let_def)

lemma d1: "to_double 1 = Num 1"
  using to_double_binade [of 0 1] by (simp add: pow2_def rne_def Let_def)

lemma d3: "to_double 3 = Num 3"
  using to_double_binade [of 1 3] by (simp add: pow2_def rne_def Let_def)

lemma d30: "to_double (1 / 2 ^ 30) = Num (1 / 2 ^ 30)"
  using to_double_binade [of "-30" "1 / 2 ^ 30"] by (simp add: pow2_def rne_def Let_def)

lemma d60: "to_double (1 / 2 ^ 60) = Num (1 / 2 ^ 60)"
  using to_double_binade [of "-60" "1 / 2 ^ 60"] by (simp add: pow2_def rne_def Let_def)

lemma d4e: "to_double (4 + 1 / 2 ^ 60) = Num 4"
  using to_double_binade [of 2 "4 + 1 / 2 ^ 60"] by (simp add: pow2_def rne_def Let_def)


lemma to_double_zero: "to_double 0 = Num 0"
  by (simp add: to_double_def)

lemma keepPoint_double_far:
  "keepPoint_double prev cur next = (exceeds_tolerance prev cur \<or> exceeds_tolerance cur next)"
  by (simp add: keepPoint_double_def exceeds_tolerance_def computed_distance_def tolerance_def Let_def)

lemma simplifyLoop_double_rule:
  "i < length points \<Longrightarrow> result \<noteq> [] \<Longrightarrow>
     simplifyLoop_double points i result @ [points ! (length points - 1)]
       = result @ rule_interior_by exceeds_tolerance (last result) (drop i points)"
proof (induction points i result rule: simplifyLoop_double.induct)
  case (1 points i result)
  show ?case
  proof (cases "i < length points - 1")
    case True
    then have d: "drop i points = points ! i # points ! (i + 1) # drop (i + 2) points"
      by (simp add: Cons_nth_drop_Suc)
    let ?r = "if keepPoint_double (result ! (length result - 1)) (points ! i) (points ! (i + 1))
              then result @ [points ! i] else result"
    have d1: "drop (i + 1) points = points ! (i + 1) # drop (i + 2) points"
      using True by (simp add: Cons_nth_drop_Suc)
    have ih: "simplifyLoop_double points (i + 1) ?r @ [points ! (length points - 1)]
                = ?r @ rule_interior_by exceeds_tolerance (last ?r) (drop (i + 1) points)"
      using "1.IH" [OF True refl refl refl] True "1.prems" by simp
    have l: "result ! (length result - 1) = last result"
      using "1.prems" by (simp add: last_conv_nth)
    show ?thesis
      using True ih d d1 l
      by (subst simplifyLoop_double.simps) (simp add: keepPoint_double_far Let_def)
  next
    case False
    with "1.prems" have e: "i = length points - 1" by simp
    have d: "drop i points = [points ! i]"
      using "1.prems" e Cons_nth_drop_Suc [of i points] by simp
    show ?thesis
      using False d e by (subst simplifyLoop_double.simps) simp
  qed
qed

lemma simplifyPath_double_rule:
  "simplifyPath_double points = simplify_rule_by exceeds_tolerance points"
proof (cases "length points \<le> 2")
  case True
  then have "simplify_rule_by exceeds_tolerance points = points"
    by (cases points; cases "tl points"; cases "tl (tl points)") (auto simp add: simplify_rule_by_def)
  with True show ?thesis by (simp add: simplifyPath_double_def)
next
  case False
  then obtain p q r rest where ps: "points = p # q # r # rest"
    by (cases points; cases "tl points"; cases "tl (tl points)") auto
  have "simplifyLoop_double points 1 [points ! 0] @ [points ! (length points - 1)]
          = [points ! 0] @ rule_interior_by exceeds_tolerance (last [points ! 0]) (drop 1 points)"
    by (rule simplifyLoop_double_rule) (simp_all add: ps)
  then show ?thesis
    using ps by (simp add: simplifyPath_double_def simplify_rule_by_def)
qed

lemma computed_near: "computed_distance (pt 0 0) (pt 2 (1 / 2 ^ 30)) = Num 2"
proof -
  have a: "js_sub (Num 2) (Num 0) = Num 2" by (simp add: js_sub_def d2)
  have b: "js_sub (Num (1 / 2 ^ 30)) (Num 0) = Num (1 / 2 ^ 30)"
    using d30 by (simp add: js_sub_def)
  have c: "js_mul (Num 2) (Num 2) = Num 4" by (simp add: d4)
  have d: "js_mul (Num (1 / 2 ^ 30)) (Num (1 / 2 ^ 30)) = Num (1 / 2 ^ 60)"
    using d60 by simp
  have e: "js_add (Num 4) (Num (1 / 2 ^ 60)) = Num 4"
    using d4e by simp
  have f: "js_sqrt (Num 4) = Num 2"
    using d2 by simp
  show ?thesis
    unfolding computed_distance_def pt_def Let_def DrawPoint.simps a b c d e f ..
qed

lemma computed_step: "computed_distance (pt 2 (1 / 2 ^ 30)) (pt 3 (1 / 2 ^ 30)) = Num 1"
proof -
  have a: "js_sub (Num 3) (Num 2) = Num 1" by (simp add: js_sub_def d1)
  have b: "js_sub (Num (1 / 2 ^ 30)) (Num (1 / 2 ^ 30)) = Num 0"
    by (simp add: js_sub_def to_double_zero)
  have c: "js_mul (Num 1) (Num 1) = Num 1" by (simp add: d1)
  have d: "js_mul (Num 0) (Num 0) = Num 0" by (simp add: to_double_zero)
  have e: "js_add (Num 1) (Num 0) = Num 1" by (simp add: d1)
  have f: "js_sqrt (Num 1) = Num 1" by (simp add: d1)
  show ?thesis
    unfolding computed_distance_def pt_def Let_def DrawPoint.simps a b c d e f ..
qed

lemma tiny3_rule: "simplify_rule_by exceeds_tolerance tiny3 = [pt 0 0, pt 3 (1 / 2 ^ 30)]"
  unfolding tiny3_def simplify_rule_by_def
  by (simp add: exceeds_tolerance_def computed_near computed_step del: power_numeral)


lemma simplifyLoop_double_keep:
  "i < length points - 1 \<Longrightarrow> keepPoint_double (last result) (points ! i) (points ! Suc i) \<Longrightarrow>
     result \<noteq> [] \<Longrightarrow>
     simplifyLoop_double points i result = simplifyLoop_double points (Suc i) (result @ [points ! i])"
  by (subst simplifyLoop_double.simps) (simp add: last_conv_nth)

lemma simplifyLoop_double_drop:
  "i < length points - 1 \<Longrightarrow> \<not> keepPoint_double (last result) (points ! i) (points ! Suc i) \<Longrightarrow>
     result \<noteq> [] \<Longrightarrow>
     simplifyLoop_double points i result = simplifyLoop_double points (Suc i) result"
  by (subst simplifyLoop_double.simps) (simp add: last_conv_nth)

lemma simplifyLoop_double_stop:
  "\<not> i < length points - 1 \<Longrightarrow> simplifyLoop_double points i result = result"
  by (subst simplifyLoop_double.simps) simp

lemma tiny3_middle_dropped:
  "\<not> keepPoint_double (pt 0 0) (pt 2 (1 / 2 ^ 30)) (pt 3 (1 / 2 ^ 30))"
  by (simp add: keepPoint_double_far exceeds_tolerance_def computed_near computed_step
      del: power_numeral)

lemma tiny3_simplified: "simplifyPath_double tiny3 = [pt 0 0, pt 3 (1 / 2 ^ 30)]"
proof -
  have "simplifyLoop_double tiny3 1 [pt 0 0] = simplifyLoop_double tiny3 (Suc 1) [pt 0 0]"
    by (rule simplifyLoop_double_drop) (simp_all add: tiny3_def tiny3_middle_dropped del: power_numeral)
  also have "\<dots> = [pt 0 0]"
    by (rule simplifyLoop_double_stop) (simp add: tiny3_def)
  finally show ?thesis
    by (simp add: simplifyPath_double_def tiny3_def del: power_numeral)
qed

lemma tiny3_exact_rule: "simplify_rule 2 tiny3 = tiny3"
  by (simp add: simplify_rule_def tiny3_def euclid_def pt_def sqrt_gt_two)

lemma to_double_ties_to_even:
  "to_double (1 + 1 / 2 ^ 53) = Num 1"
  "to_double (1 + 3 / 2 ^ 53) = Num (1 + 1 / 2 ^ 51)"
  using to_double_binade [of 0 "1 + 1 / 2 ^ 53"] to_double_binade [of 0 "1 + 3 / 2 ^ 53"]
  by (simp_all add: pow2_def rne_def Let_def)

lemma to_double_overflow: "to_double (2 ^ 1024) = PInf"
  using to_double_binade [of 1024 "2 ^ 1024"] by (simp add: pow2_def rne_def Let_def)


lemma to_double_subnormal:
  assumes "x \<noteq> 0" and "\<bar>x\<bar> < pow2 (- 1022)"
  shows "to_double x = Num (of_int (rne (x / pow2 (- 1074))) * pow2 (- 1074))"
proof -
  have "log 2 \<bar>x\<bar> < log 2 (pow2 (- 1022))"
    using assms by (simp add: pow2_def)
  then have "log 2 \<bar>x\<bar> < - 1022"
    by (simp add: pow2_powr)
  then have "\<lfloor>log 2 \<bar>x\<bar>\<rfloor> \<le> - 1022"
    by (simp add: floor_le_iff)
  then have q: "quantum x = pow2 (- 1074)"
    by (simp add: quantum_def max_def)
  define y where "y = x / pow2 (- 1074)"
  have "\<bar>y\<bar> < 2 ^ 52"
    using assms(2) by (simp add: y_def pow2_def field_simps)
  then have lo: "- (2 ^ 52) \<le> \<lfloor>y\<rfloor>" and hi: "\<lfloor>y\<rfloor> < 2 ^ 52"
    by (simp_all add: le_floor_iff floor_less_iff abs_less_iff)
  have "rne y = \<lfloor>y\<rfloor> \<or> rne y = \<lfloor>y\<rfloor> + 1"
    by (simp add: rne_def Let_def)
  with lo hi have "\<bar>rne y\<bar> \<le> 2 ^ 52"
    by linarith
  then have "\<bar>real_of_int (rne y)\<bar> \<le> 2 ^ 52"
    by (metis of_int_abs of_int_le_iff of_int_numeral of_int_power)
  then have "\<bar>of_int (rne (x / pow2 (- 1074)))\<bar> \<le> (2::real) ^ 52"
    by (simp add: y_def)
  then have "\<bar>of_int (rne (x / pow2 (- 1074))) * pow2 (- 1074)\<bar> \<le> 2 ^ 52 * pow2 (- 1074)"
    by (simp add: abs_mult pow2_def field_simps)
  also have "\<dots> < 2 ^ 1024"
    by (simp add: pow2_def)
  finally show ?thesis
    using assms(1) by (simp add: to_double_def q Let_def)
qed

lemma to_double_underflow:
  "to_double (1 / 2 ^ 1074) = Num (1 / 2 ^ 1074)"
  "to_double (1 / 2 ^ 1075) = Num 0"
  using to_double_subnormal [of "1 / 2 ^ 1074"] to_double_subnormal [of "1 / 2 ^ 1075"]
  by (simp_all add: pow2_def rne_def Let_def)

lemma d9: "to_double 9 = Num 9"
  using to_double_binade [of 3 9] by (simp add: pow2_def rne_def Let_def)

lemma sqrt9: "sqrt 9 = 3"
  by (rule real_sqrt_unique) simp_all

lemma computed_on_axis:
  "computed_distance (pt 0 0) (pt 1 0) = Num 1"
  "computed_distance (pt 0 0) (pt 2 0) = Num 2"
  "computed_distance (pt 0 0) (pt 3 0) = Num 3"
  "computed_distance (pt 1 0) (pt 2 0) = Num 1"
  "computed_distance (pt 2 0) (pt 3 0) = Num 1"
  "computed_distance (pt 3 0) (pt 4 0) = Num 1"
  by (simp_all add: computed_distance_def pt_def js_sub_def to_double_zero d1 d2 d3 d4 d9 sqrt9)

lemma line5_simplified_double: "simplifyPath_double line5 = [pt 0 0, pt 3 0, pt 4 0]"
  by (simp add: line5_def simplifyPath_double_def simplifyLoop_double_keep
      simplifyLoop_double_drop simplifyLoop_double_stop keepPoint_double_far exceeds_tolerance_def
      computed_on_axis)

lemma line3_simplified_double: "simplifyPath_double line3 = [pt 0 0, pt 2 0]"
  by (simp add: line3_def simplifyPath_double_def simplifyLoop_double_keep
      simplifyLoop_double_drop simplifyLoop_double_stop keepPoint_double_far exceeds_tolerance_def
      computed_on_axis)

text \<open>
  C5, as stated: it fails. With the middle point at \<open>(2, 2\<^sup>-\<^sup>3\<^sup>0)\<close> the distance to the
  first point exceeds 2, so the rule with the Euclidean distance keeps it; the program
  computes \<open>4 + 2\<^sup>-\<^sup>6\<^sup>0\<close>, which rounds to 4, takes the root 2, finds it not greater than
  the tolerance and drops the point.
\<close>

theorem single_pass_rule_counterexample:
  "simplifyPath_double tiny3 = [pt 0 0, pt 3 (1 / 2 ^ 30)] \<and>
   simplify_rule 2 tiny3 = [pt 0 0, pt 2 (1 / 2 ^ 30), pt 3 (1 / 2 ^ 30)] \<and>
   2 < euclid (pt 0 0) (pt 2 (1 / 2 ^ 30)) \<and>
   computed_distance (pt 0 0) (pt 2 (1 / 2 ^ 30)) = Num 2 \<and>
   simplifyPath_double tiny3 \<noteq> simplify_rule 2 tiny3"
proof -
  have far: "2 < euclid (pt 0 0) (pt 2 (1 / 2 ^ 30))"
    by (simp add: euclid_def pt_def sqrt_gt_two)
  have ex: "simplify_rule 2 tiny3 = [pt 0 0, pt 2 (1 / 2 ^ 30), pt 3 (1 / 2 ^ 30)]"
    using tiny3_exact_rule by (simp add: tiny3_def)
  have ne: "[pt 0 0, pt 3 (1 / 2 ^ 30)] \<noteq> [pt 0 0, pt 2 (1 / 2 ^ 30), pt 3 (1 / 2 ^ 30)]"
    by simp
  from far ex ne tiny3_simplified computed_near show ?thesis by simp
qed

text \<open>
  C5, amended. On every point sequence \<open>simplifyPath\<close> returns what the single-pass rule
  with tolerance 2 returns when distances are taken as the program computes them,
  \<open>Math.sqrt(dx * dx + dy * dy)\<close> with every operation rounded to a double: a sequence
  of at most two points unchanged; otherwise the first point, then each interior point
  exactly when its computed distance to the previously kept point or to the next raw
  point exceeds the tolerance, then the last point.
\<close>

theorem simplifyPath_double_is_computed_rule:
  "simplifyPath_double points = simplify_rule_by exceeds_tolerance points \<and> tolerance = 2"
  by (simp add: simplifyPath_double_rule tolerance_def)

theorem simplifyPath_double_is_computed_rule_witness:
  "simplifyPath_double tiny3 = simplify_rule_by exceeds_tolerance tiny3 \<and>
   simplify_rule_by exceeds_tolerance tiny3 = [pt 0 0, pt 3 (1 / 2 ^ 30)] \<and>
   simplifyPath_double line5 = simplify_rule_by exceeds_tolerance line5"
  using simplifyPath_double_is_computed_rule [of tiny3]
    simplifyPath_double_is_computed_rule [of line5] tiny3_rule by simp

section \<open>Releasing rooms\<close>

lemma getRoom_found: "map_of (rooms (snd (getRoom roomId m))) roomId = Some (fst (getRoom roomId m))"
  by (auto simp add: getRoom_def hasRoom_def Let_def update_conv')

lemma getRoom_fst:
  "fst (getRoom roomId m) = (case map_of (rooms m) roomId of None \<Rightarrow> newDrawingState | Some r \<Rightarrow> r)"
  by (auto simp add: getRoom_def hasRoom_def Let_def update_conv' split: option.splits)

lemma getRoom_present: "map_of (rooms m) roomId = Some r \<Longrightarrow> getRoom roomId m = (r, m)"
  by (simp add: getRoom_def hasRoom_def)

lemma delete_empty_iff: "AList.delete k al = [] \<longleftrightarrow> fst ` set al \<subseteq> {k}"
  by (induction al) auto

lemma delete_update_empty_iff:
  "AList.delete k (AList.update k v al) = [] \<longleftrightarrow> fst ` set al \<subseteq> {k}"
  by (simp add: delete_empty_iff dom_update)

lemma joinThenLeave_room:
  "map_of (rooms (joinThenLeave roomId userId userName m)) roomId
     = Some (removeUser userId (snd (addUser userId userName (fst (getRoom roomId m)))))"
proof -
  let ?r2 = "snd (addUser userId userName (fst (getRoom roomId m)))"
  let ?m2 = "putRoom roomId ?r2 (snd (getRoom roomId m))"
  have "map_of (rooms ?m2) roomId = Some ?r2"
    by (simp add: putRoom_def update_conv')
  then have "getRoom roomId ?m2 = (?r2, ?m2)"
    by (rule getRoom_present)
  then show ?thesis
    by (simp add: joinThenLeave_def split_beta Let_def putRoom_def update_conv')
qed

lemma joinThenLeave_released:
  "fst (deleteRoomIfEmpty roomId (joinThenLeave roomId userId userName m))
     = (case map_of (rooms m) roomId of None \<Rightarrow> True | Some r \<Rightarrow> fst ` set (users r) \<subseteq> {userId})"
proof -
  have "users (removeUser userId (snd (addUser userId userName (fst (getRoom roomId m))))) = []
          \<longleftrightarrow> fst ` set (users (fst (getRoom roomId m))) \<subseteq> {userId}"
    by (simp add: removeUser_def addUser_def Let_def delete_update_empty_iff)
  then show ?thesis
    by (simp add: deleteRoomIfEmpty_def joinThenLeave_room getUsers_def getRoom_fst
        newDrawingState_def split: option.splits)
qed

lemma released_unlisted:
  "fst (deleteRoomIfEmpty roomId m) \<Longrightarrow> roomId \<notin> set (getAllRoomIds (snd (deleteRoomIfEmpty roomId m)))"
  using delete_notin_dom [of roomId "rooms m"]
  by (simp add: deleteRoomIfEmpty_def getUsers_def getAllRoomIds_def split: option.splits if_splits)

lemma disconnect_after_join:
  assumes "roomId \<noteq> []" and "socketId \<noteq> []"
  shows "socket_disconnect (Some roomId) (Some socketId) (snd (socket_join_room roomId socketId userName m))
           = (Some (fst (deleteRoomIfEmpty roomId (joinThenLeave roomId socketId userName m))),
              snd (deleteRoomIfEmpty roomId (joinThenLeave roomId socketId userName m)))"
  using assms
  by (simp add: socket_disconnect_def socket_join_room_def joinThenLeave_def split_beta Let_def)

text \<open>
  C9. \<open>deleteRoomIfEmpty\<close> returns true exactly when the room is registered and its users
  mapping is empty; then the room, and nothing else, is gone from the registry; when it
  returns false the registry is unchanged. After a join followed by the leave of the same
  user, on any room id, it returns true exactly when the room held nobody else before
  (or did not exist); in that case, the scenario of a join and an immediate leave, the
  room is not listed any more. The \<open>disconnect\<close> handler performs that leave and
  release for a connection whose room id and socket id are not empty, and does nothing
  when one of them is empty.
\<close>

theorem deleteRoomIfEmpty_removes_iff_empty:
  "fst (deleteRoomIfEmpty roomId m)
     = (case map_of (rooms m) roomId of None \<Rightarrow> False | Some r \<Rightarrow> users r = []) \<and>
   (fst (deleteRoomIfEmpty roomId m) \<longrightarrow>
      rooms (snd (deleteRoomIfEmpty roomId m)) = filter (\<lambda>(k, r). roomId \<noteq> k) (rooms m) \<and>
      roomId \<notin> set (getAllRoomIds (snd (deleteRoomIfEmpty roomId m)))) \<and>
   (\<not> fst (deleteRoomIfEmpty roomId m) \<longrightarrow> snd (deleteRoomIfEmpty roomId m) = m) \<and>
   fst (deleteRoomIfEmpty roomId (joinThenLeave roomId userId userName m))
     = (case map_of (rooms m) roomId of None \<Rightarrow> True | Some r \<Rightarrow> fst ` set (users r) \<subseteq> {userId}) \<and>
   ((case map_of (rooms m) roomId of None \<Rightarrow> True | Some r \<Rightarrow> fst ` set (users r) \<subseteq> {userId}) \<longrightarrow>
      fst (deleteRoomIfEmpty roomId (joinThenLeave roomId userId userName m)) \<and>
      roomId \<notin> set (getAllRoomIds
        (snd (deleteRoomIfEmpty roomId (joinThenLeave roomId userId userName m))))) \<and>
   (roomId \<noteq> [] \<and> userId \<noteq> [] \<longrightarrow>
      socket_disconnect (Some roomId) (Some userId) (snd (socket_join_room roomId userId userName m))
        = (Some (fst (deleteRoomIfEmpty roomId (joinThenLeave roomId userId userName m))),
           snd (deleteRoomIfEmpty roomId (joinThenLeave roomId userId userName m)))) \<and>
   (roomId = [] \<or> userId = [] \<longrightarrow>
      socket_disconnect (Some roomId) (Some userId) m = (None, m))"
proof (intro conjI impI)
  show "fst (deleteRoomIfEmpty roomId m)
     = (case map_of (rooms m) roomId of None \<Rightarrow> False | Some r \<Rightarrow> users r = [])"
    by (simp add: deleteRoomIfEmpty_def getUsers_def split: option.splits)
next
  assume "fst (deleteRoomIfEmpty roomId m)"
  then show "rooms (snd (deleteRoomIfEmpty roomId m)) = filter (\<lambda>(k, r). roomId \<noteq> k) (rooms m)"
    by (simp add: deleteRoomIfEmpty_def getUsers_def AList.delete_eq split: option.splits if_splits)
next
  assume "fst (deleteRoomIfEmpty roomId m)"
  then show "roomId \<notin> set (getAllRoomIds (snd (deleteRoomIfEmpty roomId m)))"
    by (rule released_unlisted)
next
  assume "\<not> fst (deleteRoomIfEmpty roomId m)"
  then show "snd (deleteRoomIfEmpty roomId m) = m"
    by (simp add: deleteRoomIfEmpty_def split: option.splits if_splits)
next
  show "fst (deleteRoomIfEmpty roomId (joinThenLeave roomId userId userName m))
     = (case map_of (rooms m) roomId of None \<Rightarrow> True | Some r \<Rightarrow> fst ` set (users r) \<subseteq> {userId})"
    by (rule joinThenLeave_released)
next
  assume "case map_of (rooms m) roomId of None \<Rightarrow> True | Some r \<Rightarrow> fst ` set (users r) \<subseteq> {userId}"
  then show "fst (deleteRoomIfEmpty roomId (joinThenLeave roomId userId userName m))"
    by (simp add: joinThenLeave_released)
next
  assume "case map_of (rooms m) roomId of None \<Rightarrow> True | Some r \<Rightarrow> fst ` set (users r) \<subseteq> {userId}"
  then have "fst (deleteRoomIfEmpty roomId (joinThenLeave roomId userId userName m))"
    by (simp add: joinThenLeave_released)
  then show "roomId \<notin> set (getAllRoomIds
        (snd (deleteRoomIfEmpty roomId (joinThenLeave roomId userId userName m))))"
    by (rule released_unlisted)
next
  assume "roomId \<noteq> [] \<and> userId \<noteq> []"
  then show "socket_disconnect (Some roomId) (Some userId) (snd (socket_join_room roomId userId userName m))
        = (Some (fst (deleteRoomIfEmpty roomId (joinThenLeave roomId userId userName m))),
           snd (deleteRoomIfEmpty roomId (joinThenLeave roomId userId userName m)))"
    by (simp add: disconnect_after_join)
next
  assume "roomId = [] \<or> userId = []"
  then show "socket_disconnect (Some roomId) (Some userId) m = (None, m)"
    by (auto simp add: socket_disconnect_def)
qed

theorem deleteRoomIfEmpty_removes_iff_empty_witness:
  "(fst (deleteRoomIfEmpty ''r1'' vacatedRegistry) \<and>
      getAllRoomIds vacatedRegistry = [''r1'', ''r2''] \<and>
      getAllRoomIds (snd (deleteRoomIfEmpty ''r1'' vacatedRegistry)) = [''r2'']) \<and>
   (\<not> fst (deleteRoomIfEmpty ''r1'' busyRegistry) \<and>
      snd (deleteRoomIfEmpty ''r1'' busyRegistry) = busyRegistry) \<and>
   (map_of (rooms newRoomManager) ''r1'' = None \<and>
      fst (deleteRoomIfEmpty ''r1'' (joinThenLeave ''r1'' ''s1'' ''Ann'' newRoomManager)) \<and>
      ''r1'' \<notin> set (getAllRoomIds
        (snd (deleteRoomIfEmpty ''r1'' (joinThenLeave ''r1'' ''s1'' ''Ann'' newRoomManager)))) \<and>
      fst (socket_disconnect (Some ''r1'') (Some ''s1'')
             (snd (socket_join_room ''r1'' ''s1'' ''Ann'' newRoomManager))) = Some True) \<and>
   \<not> fst (deleteRoomIfEmpty ''r1'' (joinThenLeave ''r1'' ''s3'' ''Cid'' busyRegistry)) \<and>
   socket_disconnect (Some []) (Some ''s1'') busyRegistry = (None, busyRegistry)"
proof -
  note T = deleteRoomIfEmpty_removes_iff_empty
  have busy: "rooms busyRegistry =
      [(''r1'', snd (addUser ''s1'' ''Ann'' newDrawingState)),
       (''r2'', snd (addUser ''s2'' ''Bob'' newDrawingState))]"
    by (simp add: busyRegistry_def socket_join_room_def getRoom_def hasRoom_def putRoom_def
        newRoomManager_def Let_def split_beta)
  have vac: "rooms vacatedRegistry =
      [(''r1'', removeUser ''s1'' (snd (addUser ''s1'' ''Ann'' newDrawingState))),
       (''r2'', snd (addUser ''s2'' ''Bob'' newDrawingState))]"
    by (simp add: vacatedRegistry_def busy getRoom_def hasRoom_def putRoom_def Let_def)
  have h1: "(case map_of (rooms vacatedRegistry) ''r1'' of None \<Rightarrow> False | Some r \<Rightarrow> users r = [])"
    by (simp add: vac removeUser_def addUser_def newDrawingState_def Let_def)
  have h2: "\<not> (case map_of (rooms busyRegistry) ''r1'' of None \<Rightarrow> False | Some r \<Rightarrow> users r = [])"
    by (simp add: busy addUser_def newDrawingState_def Let_def)
  have h3: "map_of (rooms newRoomManager) ''r1'' = None"
    by (simp add: newRoomManager_def)
  have h4: "\<not> (case map_of (rooms busyRegistry) ''r1'' of None \<Rightarrow> True
                | Some r \<Rightarrow> fst ` set (users r) \<subseteq> {''s3''})"
    by (simp add: busy addUser_def newDrawingState_def Let_def)
  have c1: "fst (deleteRoomIfEmpty ''r1'' vacatedRegistry)"
    using T [of "''r1''" vacatedRegistry] h1 by simp
  then have "rooms (snd (deleteRoomIfEmpty ''r1'' vacatedRegistry))
               = filter (\<lambda>(k, r). ''r1'' \<noteq> k) (rooms vacatedRegistry)"
    using T [of "''r1''" vacatedRegistry] by blast
  then have c2: "getAllRoomIds (snd (deleteRoomIfEmpty ''r1'' vacatedRegistry)) = [''r2'']"
    by (simp add: getAllRoomIds_def vac)
  have c0: "getAllRoomIds vacatedRegistry = [''r1'', ''r2'']"
    by (simp add: getAllRoomIds_def vac)
  have c3: "\<not> fst (deleteRoomIfEmpty ''r1'' busyRegistry)"
    using T [of "''r1''" busyRegistry] h2 by simp
  then have c4: "snd (deleteRoomIfEmpty ''r1'' busyRegistry) = busyRegistry"
    using T [of "''r1''" busyRegistry] by blast
  have c5: "fst (deleteRoomIfEmpty ''r1'' (joinThenLeave ''r1'' ''s1'' ''Ann'' newRoomManager)) \<and>
      ''r1'' \<notin> set (getAllRoomIds
        (snd (deleteRoomIfEmpty ''r1'' (joinThenLeave ''r1'' ''s1'' ''Ann'' newRoomManager))))"
    using T [of "''r1''" newRoomManager "''s1''" "''Ann''"] h3 by simp
  have c6: "fst (socket_disconnect (Some ''r1'') (Some ''s1'')
             (snd (socket_join_room ''r1'' ''s1'' ''Ann'' newRoomManager))) = Some True"
    using T [of "''r1''" newRoomManager "''s1''" "''Ann''"] c5 by simp
  have c7: "\<not> fst (deleteRoomIfEmpty ''r1'' (joinThenLeave ''r1'' ''s3'' ''Cid'' busyRegistry))"
    using T [of "''r1''" busyRegistry "''s3''" "''Cid''"] h4 by simp
  have c8: "socket_disconnect (Some []) (Some ''s1'') busyRegistry = (None, busyRegistry)"
    using T [of "[]" busyRegistry "''s1''"] by simp
  from c0 c1 c2 c3 c4 c5 c6 c7 c8 h3 show ?thesis by blast
qed

section \<open>Joining twice under one id\<close>

lemma userColors_distinct: "distinct userColors"
  by (simp add: userColors_def)


text \<open>
  C10. \<open>addUser\<close> with a user id that is already in the users mapping returns a user (it
  cannot fail), puts that user in the place of the old record, so that the keys and the
  number of users stay as they were, and advances the palette index by one. The new
  record has the palette color of the index before the call: whenever the old color sits
  at another palette position, the color has changed.
\<close>

theorem addUser_existing_replaces:
  "map_of (users s) userId = Some old \<Longrightarrow>
     length (users (snd (addUser userId userName s))) = length (users s) \<and>
     map fst (users (snd (addUser userId userName s))) = map fst (users s) \<and>
     map_of (users (snd (addUser userId userName s))) userId = Some (fst (addUser userId userName s)) \<and>
     fst (addUser userId userName s)
       = \<lparr>user_id = userId, user_name = userName,
          user_color = userColors ! (colorIdx s mod 8), cursorX = None, cursorY = None\<rparr> \<and>
     colorIdx (snd (addUser userId userName s)) = colorIdx s + 1 \<and>
     (\<forall>k. user_color old = userColors ! (k mod 8) \<and> k mod 8 \<noteq> colorIdx s mod 8 \<longrightarrow>
          user_color (fst (addUser userId userName s)) \<noteq> user_color old)"
proof -
  assume a: "map_of (users s) userId = Some old"
  then have mem: "userId \<in> set (map fst (users s))"
    by (metis map_of_eq_None_iff option.distinct(1) set_map)
  have len8: "length userColors = 8" by (simp add: userColors_def)
  have keys: "map fst (AList.update userId v (users s)) = map fst (users s)" for v
    using mem by (simp add: update_keys)
  have l: "length (AList.update userId v (users s)) = length (users s)" for v
    using keys [of v] by (metis length_map)
  have col: "\<forall>k. user_color old = userColors ! (k mod 8) \<and> k mod 8 \<noteq> colorIdx s mod 8 \<longrightarrow>
          userColors ! (colorIdx s mod 8) \<noteq> user_color old"
    using userColors_distinct len8 by (auto simp add: nth_eq_iff_index_eq)
  show ?thesis
    using keys l col by (simp add: addUser_def Let_def len8 update_conv')
qed


theorem addUser_existing_replaces_witness:
  "map_of (users joinedTwice) ''s1''
     = Some \<lparr>user_id = ''s1'', user_name = ''Ann'', user_color = ''#FF6B6B'',
             cursorX = None, cursorY = None\<rparr> \<and>
   length (users (snd (addUser ''s1'' ''Ann'' joinedTwice))) = 1 \<and>
   colorIdx (snd (addUser ''s1'' ''Ann'' joinedTwice)) = 2 \<and>
   user_color (fst (addUser ''s1'' ''Ann'' joinedTwice)) = ''#4ECDC4'' \<and>
   user_color (fst (addUser ''s1'' ''Ann'' joinedTwice)) \<noteq> ''#FF6B6B''"
proof -
  let ?old = "\<lparr>user_id = ''s1'', user_name = ''Ann'', user_color = ''#FF6B6B'',
                cursorX = None, cursorY = None\<rparr>"
  have st: "joinedTwice = \<lparr>operations = [], users = [(''s1'', ?old)], colorIdx = 1\<rparr>"
    by (simp add: joinedTwice_def addUser_def newDrawingState_def userColors_def Let_def)
  have h: "map_of (users joinedTwice) ''s1'' = Some ?old"
    by (simp add: st)
  note T = addUser_existing_replaces [OF h, of "''Ann''"]
  have len: "length (users (snd (addUser ''s1'' ''Ann'' joinedTwice))) = 1"
    using T by (simp add: st)
  have idx: "colorIdx (snd (addUser ''s1'' ''Ann'' joinedTwice)) = 2"
    using T by (simp add: st)
  have col: "user_color (fst (addUser ''s1'' ''Ann'' joinedTwice)) = ''#4ECDC4''"
    using T by (simp add: st userColors_def)
  have "user_color ?old = userColors ! (0 mod 8) \<and> (0::nat) mod 8 \<noteq> colorIdx joinedTwice mod 8"
    by (simp add: st userColors_def)
  with T have "user_color (fst (addUser ''s1'' ''Ann'' joinedTwice)) \<noteq> user_color ?old"
    by blast
  with h len idx col show ?thesis by simp
qed

end
